theory Spec2Isabelle
  imports Main
begin

section \<open>MessengerHub: message history store and query pipeline\<close>

text \<open>
  A shallow embedding of \<^verbatim>\<open>src/oc-messengerbot.ts\<close>: the in-memory history
  (\<^verbatim>\<open>storeMessage\<close>) and the natural-language query handler
  (\<^verbatim>\<open>handleUserQuery\<close> with its inner \<^verbatim>\<open>searchMessages\<close>).

  Strings are \<open>string\<close>; queries and message texts are taken to be ASCII, so
  \<^verbatim>\<open>toLowerCase\<close> maps \<open>A..Z\<close> to \<open>a..z\<close> and leaves every other character alone,
  and \<^verbatim>\<open>\s\<close> is the ASCII white space. Timestamps are integers (milliseconds).
\<close>

subsection \<open>Strings\<close>

definition toLowerChar :: "char \<Rightarrow> char" where
  "toLowerChar c =
     (let n = (of_char c :: nat) in if 65 \<le> n \<and> n \<le> 90 then char_of (n + 32) else c)"

definition toUpperChar :: "char \<Rightarrow> char" where
  "toUpperChar c =
     (let n = (of_char c :: nat) in if 97 \<le> n \<and> n \<le> 122 then char_of (n - 32) else c)"

definition toLowerCase :: "string \<Rightarrow> string" where
  "toLowerCase s = map toLowerChar s"

text \<open>\<^verbatim>\<open>s.startsWith(k)\<close> and \<^verbatim>\<open>s.includes(k)\<close> (here \<open>includesStr\<close>): \<open>k\<close> occurs in \<open>s\<close> at the
  front, respectively at some position.\<close>

fun startsWith :: "string \<Rightarrow> string \<Rightarrow> bool" where
  "startsWith s [] = True"
| "startsWith [] (k # ks) = False"
| "startsWith (c # cs) (k # ks) = (c = k \<and> startsWith cs ks)"

fun includesStr :: "string \<Rightarrow> string \<Rightarrow> bool" where
  "includesStr [] k = (k = [])"
| "includesStr (c # cs) k = (startsWith (c # cs) k \<or> includesStr cs k)"

text \<open>\<^verbatim>\<open>String(n)\<close> for a natural number: its decimal digits.\<close>

definition digitChar :: "nat \<Rightarrow> char" where
  "digitChar d = char_of (48 + d)"

fun showNat :: "nat \<Rightarrow> string" where
  "showNat n = (if n < 10 then [digitChar n] else showNat (n div 10) @ [digitChar (n mod 10)])"

declare showNat.simps [simp del]

text \<open>\<^verbatim>\<open>xs.some(f)\<close>, left to right.\<close>

fun some :: "('a \<Rightarrow> bool) \<Rightarrow> 'a list \<Rightarrow> bool" where
  "some f [] = False"
| "some f (x # xs) = (if f x then True else some f xs)"

subsection \<open>Data model\<close>

datatype platform = Telegram | Discord | Slack

text \<open>
  The stored objects are untyped in the source (\<^verbatim>\<open>any\<close>); each connector writes
  the fields of its own platform (Telegram: \<^verbatim>\<open>text, date, chatTitle, senderName\<close>;
  Discord: \<^verbatim>\<open>content, timestamp, channelName, authorName\<close>; Slack:
  \<^verbatim>\<open>text, timestamp, channelName, userName\<close>). The record carries the union of
  the fields that the search and the formatter read; for a platform they read only the
  fields of that platform. \<open>msgId\<close> is the field \<^verbatim>\<open>id\<close>, \<open>msgText\<close> the field
  \<^verbatim>\<open>text\<close>.
\<close>

record message =
  msgId :: string
  msgText :: string
  content :: string
  date :: int
  timestamp :: int
  chatTitle :: string
  channelName :: string
  senderName :: string
  authorName :: string
  userName :: string

text \<open>
  A JavaScript \<^verbatim>\<open>Map\<close> keeps its keys in insertion order, and the search walks
  \<^verbatim>\<open>platformHistory.keys()\<close> in that order: the map is an association list.
  \<open>mapSet\<close> overwrites the value of a key in place and puts a new key at the end.
\<close>

type_synonym ('k, 'v) jsmap = "('k \<times> 'v) list"

fun mapHas :: "('k, 'v) jsmap \<Rightarrow> 'k \<Rightarrow> bool" where
  "mapHas [] k = False"
| "mapHas ((k', v) # rest) k = (if k' = k then True else mapHas rest k)"

fun mapGet :: "('k, 'v) jsmap \<Rightarrow> 'k \<Rightarrow> 'v option" where
  "mapGet [] k = None"
| "mapGet ((k', v) # rest) k = (if k' = k then Some v else mapGet rest k)"

fun mapSet :: "('k, 'v) jsmap \<Rightarrow> 'k \<Rightarrow> 'v \<Rightarrow> ('k, 'v) jsmap" where
  "mapSet [] k v = [(k, v)]"
| "mapSet ((k', v') # rest) k v =
     (if k' = k then (k, v) # rest else (k', v') # mapSet rest k v)"

definition mapKeys :: "('k, 'v) jsmap \<Rightarrow> 'k list" where
  "mapKeys m = map fst m"

text \<open>
  \<^verbatim>\<open>UserConfig\<close>: \<open>platformClients p\<close> is the truthiness of the client slot of
  platform \<open>p\<close> (the handlers only test it), \<open>messageHistory p\<close> the map from channel id
  to the messages of that channel.
\<close>

record UserConfig =
  userId :: string
  platformClients :: "platform \<Rightarrow> bool"
  messageHistory :: "platform \<Rightarrow> (string, message list) jsmap"

type_synonym users = "string \<rightharpoonup> UserConfig"

definition MAX_HISTORY_PER_CHANNEL :: nat where
  "MAX_HISTORY_PER_CHANNEL = 500"

subsection \<open>storeMessage\<close>

text \<open>\<^verbatim>\<open>channelMessages.shift()\<close> removes the first element.\<close>

definition shift :: "'a list \<Rightarrow> 'a list" where
  "shift xs = (case xs of [] \<Rightarrow> [] | x # rest \<Rightarrow> rest)"

text \<open>
  The array is pushed to and shifted in place, inside the map of the user object that
  \<open>users\<close> holds; the model returns the updated \<open>users\<close>.
\<close>

definition storeMessage ::
  "string \<Rightarrow> platform \<Rightarrow> string \<Rightarrow> message \<Rightarrow> users \<Rightarrow> users" where
  "storeMessage uid p channelId m us =
     (case us uid of
        None \<Rightarrow> us
      | Some user \<Rightarrow>
          let h0 = messageHistory user p;
              h1 = (if \<not> mapHas h0 channelId then mapSet h0 channelId [] else h0);
              h2 = (case mapGet h1 channelId of
                      None \<Rightarrow> h1
                    | Some channelMessages \<Rightarrow>
                        let pushed = channelMessages @ [m];
                            trimmed = (if length pushed > MAX_HISTORY_PER_CHANNEL
                                       then shift pushed else pushed)
                        in mapSet h1 channelId trimmed)
          in us(uid \<mapsto> user\<lparr>messageHistory := (messageHistory user)(p := h2)\<rparr>))"

text \<open>A delivered event: the arguments of one call of \<open>storeMessage\<close>.\<close>

type_synonym event = "string \<times> platform \<times> string \<times> message"

fun storeAll :: "event list \<Rightarrow> users \<Rightarrow> users" where
  "storeAll [] us = us"
| "storeAll ((uid, p, c, m) # es) us = storeAll es (storeMessage uid p c m us)"

text \<open>The stored sequence of a channel; an untracked channel has none.\<close>

definition channelMessagesOf :: "users \<Rightarrow> string \<Rightarrow> platform \<Rightarrow> string \<Rightarrow> message list" where
  "channelMessagesOf us uid p c =
     (case us uid of
        None \<Rightarrow> []
      | Some user \<Rightarrow> (case mapGet (messageHistory user p) c of None \<Rightarrow> [] | Some ms \<Rightarrow> ms))"

text \<open>The messages that a list of events delivers to one channel, in arrival order.\<close>

definition deliveredTo :: "string \<Rightarrow> platform \<Rightarrow> string \<Rightarrow> event list \<Rightarrow> message list" where
  "deliveredTo uid p c es =
     map (\<lambda>(uid', p', c', m). m) (filter (\<lambda>(uid', p', c', m). uid' = uid \<and> p' = p \<and> c' = c) es)"

definition lastN :: "nat \<Rightarrow> 'a list \<Rightarrow> 'a list" where
  "lastN n xs = drop (length xs - n) xs"

subsection \<open>Query interpreter\<close>

datatype timeRange = Recent | Today | Yesterday | ThisWeek

text \<open>\<^verbatim>\<open>Object.entries\<close> walks the keys of an object literal in the order they are
  written, so each keyword table is a list of pairs.\<close>

definition platformKeywords :: "(platform \<times> string list) list" where
  "platformKeywords =
     [(Telegram, [''telegram'', ''tg'']),
      (Discord, [''discord'', ''dc'', ''server'']),
      (Slack, [''slack'', ''sl''])]"

definition timeKeywords :: "(timeRange \<times> string list) list" where
  "timeKeywords =
     [(Recent, [''recent'', ''latest'', ''last'', ''newest'']),
      (Today, [''today'', ''this day'']),
      (Yesterday, [''yesterday'', ''past day'']),
      (ThisWeek, [''this week'', ''past week'', ''last 7 days''])]"

text \<open>\<^verbatim>\<open>keywords.some(keyword => query.toLowerCase().includes(keyword))\<close>\<close>

definition mentionsAny :: "string \<Rightarrow> string list \<Rightarrow> bool" where
  "mentionsAny query keywords = some (\<lambda>keyword. includesStr (toLowerCase query) keyword) keywords"

text \<open>The platform loop: every platform whose keywords occur is pushed.\<close>

fun detectPlatformsLoop ::
  "(platform \<times> string list) list \<Rightarrow> string \<Rightarrow> platform list \<Rightarrow> platform list" where
  "detectPlatformsLoop [] query platforms = platforms"
| "detectPlatformsLoop ((p, keywords) # rest) query platforms =
     detectPlatformsLoop rest query
       (if mentionsAny query keywords then platforms @ [p] else platforms)"

text \<open>With no platform mentioned, the connected platforms are searched.\<close>

definition detectPlatforms :: "UserConfig \<Rightarrow> string \<Rightarrow> platform list" where
  "detectPlatforms user query =
     (let platforms = detectPlatformsLoop platformKeywords query []
      in if length platforms = 0
         then (if platformClients user Telegram then [Telegram] else [])
              @ (if platformClients user Discord then [Discord] else [])
              @ (if platformClients user Slack then [Slack] else [])
         else platforms)"

text \<open>The time-range loop: the first range whose keywords occur is taken and the loop
  is left (\<^verbatim>\<open>break\<close>); \<open>timeRange\<close> keeps its initial value otherwise.\<close>

fun detectTimeRangeLoop ::
  "(timeRange \<times> string list) list \<Rightarrow> string \<Rightarrow> timeRange \<Rightarrow> timeRange" where
  "detectTimeRangeLoop [] query timeRange = timeRange"
| "detectTimeRangeLoop ((r, keywords) # rest) query timeRange =
     (if mentionsAny query keywords then r
      else detectTimeRangeLoop rest query timeRange)"

definition detectTimeRange :: "string \<Rightarrow> timeRange" where
  "detectTimeRange query = detectTimeRangeLoop timeKeywords query Recent"

definition commonWords :: "string list" where
  "commonWords =
     [''the'', ''and'', ''a'', ''an'', ''in'', ''on'', ''at'', ''from'', ''to'', ''with'', ''by'',
      ''about'', ''for'', ''of'', ''as'', ''what'', ''who'', ''when'', ''where'', ''why'', ''how'',
      ''did'', ''does'', ''do'', ''is'', ''are'', ''was'', ''were'', ''be'', ''been'', ''being'',
      ''have'', ''has'', ''had'', ''can'', ''could'', ''will'', ''would'', ''shall'', ''should'',
      ''may'', ''might'', ''must'', ''that'', ''this'', ''these'', ''those'', ''it'', ''they'',
      ''them'', ''their'', ''there'', ''show'', ''tell'', ''find'', ''get'', ''see'', ''look'',
      ''search'']"

text \<open>The characters of the class \<^verbatim>\<open>[.,\/#!$%\^&\*;:{}=\-_`~()]\<close>.\<close>

definition punctuation :: "char list" where
  "punctuation =
     [CHR ''.'', CHR '','', CHR ''/'', CHR ''#'', CHR ''!'', CHR ''$'', CHR ''%'', CHR ''^'',
      CHR ''&'', CHR ''*'', CHR '';'', CHR '':'', CHR ''{'', CHR ''}'', CHR ''='', CHR ''-'',
      CHR ''_'', CHR 0x60, CHR ''~'', CHR ''('', CHR '')'']"

definition stripPunctuation :: "string \<Rightarrow> string" where
  "stripPunctuation s = filter (\<lambda>c. c \<notin> set punctuation) s"

definition isSpace :: "char \<Rightarrow> bool" where
  "isSpace c = (c \<in> set [CHR '' '', CHR 0x09, CHR 0x0A, CHR 0x0B, CHR 0x0C, CHR 0x0D])"

text \<open>
  \<^verbatim>\<open>s.split(/\s+/)\<close>: the pieces between the maximal runs of white space, the
  empty piece before a leading run and after a trailing one included. \<open>cur\<close> is the
  piece being read (reversed), \<open>inSep\<close> says that the last character was white space.
\<close>

fun splitLoop :: "string \<Rightarrow> bool \<Rightarrow> string \<Rightarrow> string list" where
  "splitLoop cur inSep [] = [rev cur]"
| "splitLoop cur inSep (c # cs) =
     (if isSpace c
      then (if inSep then splitLoop [] True cs else rev cur # splitLoop [] True cs)
      else splitLoop (c # cur) False cs)"

definition splitWhitespace :: "string \<Rightarrow> string list" where
  "splitWhitespace s = splitLoop [] False s"

definition queryWords :: "string \<Rightarrow> string list" where
  "queryWords query =
     filter (\<lambda>word. length word > 2 \<and> word \<notin> set commonWords)
       (splitWhitespace (stripPunctuation (toLowerCase query)))"

text \<open>
  \<^verbatim>\<open>query.match(/#([a-zA-Z0-9_-]+)/g)\<close> and \<^verbatim>\<open>substring(1)\<close> of each match:
  after a \<^verbatim>\<open>#\<close> the longest run of name characters, when it is not empty.
  The state is \<open>None\<close> outside a match and \<open>Some acc\<close> behind a \<^verbatim>\<open>#\<close>, with the
  name read so far (reversed).
\<close>

definition isNameChar :: "char \<Rightarrow> bool" where
  "isNameChar c =
     (let n = (of_char c :: nat)
      in (97 \<le> n \<and> n \<le> 122) \<or> (65 \<le> n \<and> n \<le> 90) \<or> (48 \<le> n \<and> n \<le> 57)
         \<or> c = CHR ''_'' \<or> c = CHR ''-'')"

definition closeName :: "string option \<Rightarrow> string list" where
  "closeName st = (case st of None \<Rightarrow> [] | Some acc \<Rightarrow> if acc = [] then [] else [rev acc])"

fun hashLoop :: "string option \<Rightarrow> string \<Rightarrow> string list" where
  "hashLoop st [] = closeName st"
| "hashLoop st (c # cs) =
     (if st \<noteq> None \<and> isNameChar c then hashLoop (Some (c # the st)) cs
      else closeName st @ hashLoop (if c = CHR ''#'' then Some [] else None) cs)"

definition hashMentions :: "string \<Rightarrow> string list" where
  "hashMentions query = hashLoop None query"

text \<open>
  The \<^verbatim>\<open>exec\<close> loop of \<^verbatim>\<open>/"([^"]+)"|'([^']+)'/g\<close>: at a quote character, the
  run up to the next quote of the same kind is a match when it is not empty and that
  closing quote exists; the scan goes on behind the closing quote. Where there is no match
  it goes on at the next character.
\<close>

function quotedMentions :: "string \<Rightarrow> string list" where
  "quotedMentions [] = []"
| "quotedMentions (c # cs) =
     (if c = CHR 0x22 \<or> c = CHR 0x27
      then (let inner = takeWhile (\<lambda>d. d \<noteq> c) cs; rest = dropWhile (\<lambda>d. d \<noteq> c) cs
            in if inner \<noteq> [] \<and> rest \<noteq> [] then inner # quotedMentions (tl rest)
               else quotedMentions cs)
      else quotedMentions cs)"
  by pat_completeness auto
termination
proof (relation "measure length")
  fix c :: char and cs inner rest :: string
  assume "rest = dropWhile (\<lambda>d. d \<noteq> c) cs"
  then have "length (tl rest) \<le> length cs"
    using length_dropWhile_le[of "\<lambda>d. d \<noteq> c" cs] by simp
  then show "(tl rest, c # cs) \<in> measure length" by simp
qed auto

definition channelMentions :: "string \<Rightarrow> string list" where
  "channelMentions query = hashMentions query @ quotedMentions query"

subsection \<open>Clock and local time\<close>

text \<open>
  The host supplies the clock, the local time zone and the locale. A zone is given by
  its offset from UTC in milliseconds, as ECMAScript's \<^verbatim>\<open>LocalTZA\<close> has it:
  \<open>utcOffset z t\<close> is the offset in force at the instant \<open>t\<close>, \<open>localOffset z t\<close> the
  offset by which the local time value \<open>t\<close> is read back. \<open>LocalTime\<close>, \<open>UTC\<close>,
  \<open>Day\<close>, \<open>TimeWithinDay\<close> and \<open>MakeDate\<close> are the abstract operations of the
  language's \<^verbatim>\<open>Date\<close> objects. The clock is read once per query: \<^verbatim>\<open>Date.now()\<close> and
  the \<^verbatim>\<open>new Date()\<close> of one call give the same instant \<open>now\<close>.
\<close>

record timeZone =
  utcOffset :: "int \<Rightarrow> int"
  localOffset :: "int \<Rightarrow> int"

record env =
  now :: int
  zone :: timeZone
  toLocaleString :: "int \<Rightarrow> string"

definition msPerDay :: int where
  "msPerDay = 86400000"

definition LocalTime :: "timeZone \<Rightarrow> int \<Rightarrow> int" where
  "LocalTime z t = t + utcOffset z t"

definition UTC :: "timeZone \<Rightarrow> int \<Rightarrow> int" where
  "UTC z t = t - localOffset z t"

definition Day :: "int \<Rightarrow> int" where
  "Day t = t div msPerDay"

definition TimeWithinDay :: "int \<Rightarrow> int" where
  "TimeWithinDay t = t mod msPerDay"

definition MakeDate :: "int \<Rightarrow> int \<Rightarrow> int" where
  "MakeDate day time = day * msPerDay + time"

text \<open>\<^verbatim>\<open>d.setHours(0, 0, 0, 0)\<close> on a date with time value \<open>tv\<close>: the new time value.\<close>

definition setHours0 :: "timeZone \<Rightarrow> int \<Rightarrow> int" where
  "setHours0 z tv = UTC z (MakeDate (Day (LocalTime z tv)) 0)"

text \<open>
  \<^verbatim>\<open>d.setDate(d.getDate() - k)\<close>: the day of the month is taken in local time and
  set back by \<open>k\<close>; \<^verbatim>\<open>MakeDay\<close> carries a day number below 1 into the months
  before, so the local day number goes back by \<open>k\<close> and the time within the day stays.
\<close>

definition setDateBack :: "timeZone \<Rightarrow> int \<Rightarrow> int \<Rightarrow> int" where
  "setDateBack z tv k =
     (let t = LocalTime z tv in UTC z (MakeDate (Day t - k) (TimeWithinDay t)))"

subsection \<open>searchMessages\<close>

text \<open>The \<^verbatim>\<open>switch\<close> on the time range.\<close>

fun cutoffTime :: "env \<Rightarrow> timeRange \<Rightarrow> int" where
  "cutoffTime e Today = setHours0 (zone e) (now e)"
| "cutoffTime e Yesterday = setHours0 (zone e) (setDateBack (zone e) (now e) 1)"
| "cutoffTime e ThisWeek = setDateBack (zone e) (now e) 7"
| "cutoffTime e Recent = now e - 24 * 60 * 60 * 1000"

text \<open>The three platform-dependent field reads.\<close>

definition channelNameOf :: "platform \<Rightarrow> message \<Rightarrow> string" where
  "channelNameOf p m =
     (if p = Telegram then chatTitle m else if p = Discord then channelName m else channelName m)"

definition timestampOf :: "platform \<Rightarrow> message \<Rightarrow> int" where
  "timestampOf p m =
     (if p = Telegram then date m * 1000 else if p = Discord then timestamp m else timestamp m)"

definition textOf :: "platform \<Rightarrow> message \<Rightarrow> string" where
  "textOf p m =
     (if p = Telegram then msgText m else if p = Discord then content m else msgText m)"

text \<open>\<^verbatim>\<open>platformHistory.get(channelId) || []\<close>\<close>

definition messagesOrEmpty :: "(string, message list) jsmap \<Rightarrow> string \<Rightarrow> message list" where
  "messagesOrEmpty platformHistory channelId =
     (case mapGet platformHistory channelId of None \<Rightarrow> [] | Some ms \<Rightarrow> ms)"

text \<open>The callback of the channel filter.\<close>

definition hintMatches ::
  "platform \<Rightarrow> (string, message list) jsmap \<Rightarrow> string list \<Rightarrow> string \<Rightarrow> bool" where
  "hintMatches p platformHistory channelHints channelId =
     (case messagesOrEmpty platformHistory channelId of
        [] \<Rightarrow> False
      | m0 # rest \<Rightarrow>
          some (\<lambda>hint. includesStr (toLowerCase (channelNameOf p m0)) (toLowerCase hint)
                       \<or> channelId = hint)
            channelHints)"

definition channelsToSearch ::
  "platform \<Rightarrow> (string, message list) jsmap \<Rightarrow> string list \<Rightarrow> string list" where
  "channelsToSearch p platformHistory channelHints =
     (if length channelHints > 0
      then filter (hintMatches p platformHistory channelHints) (mapKeys platformHistory)
      else mapKeys platformHistory)"

text \<open>The callback of the message filter.\<close>

definition messageMatches :: "platform \<Rightarrow> string list \<Rightarrow> int \<Rightarrow> message \<Rightarrow> bool" where
  "messageMatches p keywords cutoff m =
     (if timestampOf p m < cutoff then False
      else if length keywords = 0 then True
      else some (\<lambda>keyword. includesStr (toLowerCase (textOf p m)) (toLowerCase keyword))
             keywords)"

record channelInfoT =
  info_id :: string
  info_name :: string

record searchResult =
  messages :: "message list"
  channelInfo :: channelInfoT

text \<open>The loop over \<open>channelsToSearch\<close>, with \<open>results\<close> the array built so far.\<close>

fun searchLoop ::
  "platform \<Rightarrow> (string, message list) jsmap \<Rightarrow> string list \<Rightarrow> int \<Rightarrow> string list
   \<Rightarrow> searchResult list \<Rightarrow> searchResult list" where
  "searchLoop p platformHistory keywords cutoff [] results = results"
| "searchLoop p platformHistory keywords cutoff (channelId # rest) results =
     (case messagesOrEmpty platformHistory channelId of
        [] \<Rightarrow> searchLoop p platformHistory keywords cutoff rest results
      | m0 # ms \<Rightarrow>
          let matchingMessages = filter (messageMatches p keywords cutoff) (m0 # ms)
          in if length matchingMessages > 0
             then searchLoop p platformHistory keywords cutoff rest
                    (results @ [\<lparr>messages = matchingMessages,
                                 channelInfo = \<lparr>info_id = channelId,
                                                info_name = channelNameOf p m0\<rparr>\<rparr>])
             else searchLoop p platformHistory keywords cutoff rest results)"

definition searchMessages ::
  "env \<Rightarrow> UserConfig \<Rightarrow> platform \<Rightarrow> string list \<Rightarrow> string list \<Rightarrow> timeRange
   \<Rightarrow> searchResult list" where
  "searchMessages e user p keywords channelHints timeRange =
     (let platformHistory = messageHistory user p
      in searchLoop p platformHistory keywords (cutoffTime e timeRange)
           (channelsToSearch p platformHistory channelHints) [])"

text \<open>The loop that fills \<^verbatim>\<open>searchResults\<close>, an object keyed by platform.\<close>

fun searchPlatforms ::
  "env \<Rightarrow> UserConfig \<Rightarrow> string list \<Rightarrow> string list \<Rightarrow> timeRange \<Rightarrow> platform list
   \<Rightarrow> (platform, searchResult list) jsmap \<Rightarrow> (platform, searchResult list) jsmap" where
  "searchPlatforms e user keywords hints timeRange [] searchResults = searchResults"
| "searchPlatforms e user keywords hints timeRange (p # rest) searchResults =
     (let results = searchMessages e user p keywords hints timeRange
      in searchPlatforms e user keywords hints timeRange rest
           (if length results > 0 then mapSet searchResults p results else searchResults))"

subsection \<open>Formatting the response\<close>

definition MAX_MESSAGES_TO_DISPLAY :: nat where
  "MAX_MESSAGES_TO_DISPLAY = 20"

text \<open>
  The response is built by appending to a string. Each \<^verbatim>\<open>response += ...\<close> of the
  source appends one \<open>chunk\<close>; \<open>renderChunk\<close> is the text of a chunk and
  \<open>renderResponse\<close> the concatenation, the string that is sent.
\<close>

datatype chunk =
    Title string
  | PlatformHeader platform
  | ChannelHeader string
  | MessageLine platform message
  | Separator
  | Note nat nat

definition platformName :: "platform \<Rightarrow> string" where
  "platformName p = (case p of Telegram \<Rightarrow> ''telegram'' | Discord \<Rightarrow> ''discord'' | Slack \<Rightarrow> ''slack'')"

text \<open>\<^verbatim>\<open>platform.charAt(0).toUpperCase() + platform.slice(1)\<close>\<close>

definition capitalize :: "string \<Rightarrow> string" where
  "capitalize s = (case s of [] \<Rightarrow> [] | c # cs \<Rightarrow> toUpperChar c # cs)"

definition formatMessage :: "message \<Rightarrow> platform \<Rightarrow> string" where
  "formatMessage m p =
     (case p of
        Telegram \<Rightarrow> ''**'' @ senderName m @ ''**: '' @ msgText m
      | Discord \<Rightarrow> ''**'' @ authorName m @ ''**: '' @ content m
      | Slack \<Rightarrow> ''**'' @ userName m @ ''**: '' @ msgText m)"

text \<open>The title starts with the memo emoji (U+1F4DD), here its four UTF-8 bytes.\<close>

definition renderChunk :: "env \<Rightarrow> chunk \<Rightarrow> string" where
  "renderChunk e c =
     (case c of
        Title query \<Rightarrow>
          [CHR 0xF0, CHR 0x9F, CHR 0x93, CHR 0x9D] @ '' **Search Results for '' @ [CHR 0x22]
          @ query @ [CHR 0x22] @ ''**'' @ [CHR 0x0A, CHR 0x0A]
      | PlatformHeader p \<Rightarrow>
          ''**'' @ capitalize (platformName p) @ '' Results:**'' @ [CHR 0x0A, CHR 0x0A]
      | ChannelHeader name \<Rightarrow> ''**Channel: '' @ name @ ''**'' @ [CHR 0x0A]
      | MessageLine p m \<Rightarrow>
          ''['' @ toLocaleString e (timestampOf p m) @ ''] '' @ formatMessage m p
          @ [CHR 0x0A, CHR 0x0A]
      | Separator \<Rightarrow> [CHR 0x0A]
      | Note shown matching \<Rightarrow>
          [CHR 0x0A] @ ''_Showing '' @ showNat shown @ '' of '' @ showNat matching
          @ '' matching messages. Refine your search to see more specific results._'')"

definition renderResponse :: "env \<Rightarrow> chunk list \<Rightarrow> string" where
  "renderResponse e cs = concat (map (renderChunk e) cs)"

text \<open>
  \<^verbatim>\<open>[...result.messages].sort((a, b) => timestampB - timestampA)\<close>: a stable sort,
  newest first.
\<close>

definition sortNewestFirst :: "platform \<Rightarrow> message list \<Rightarrow> message list" where
  "sortNewestFirst p ms = sort_key (\<lambda>m. - timestampOf p m) ms"

text \<open>
  The two nested loops. The state is the response so far and
  \<^verbatim>\<open>totalMessagesDisplayed\<close>; a \<^verbatim>\<open>break\<close> returns the state as it is.
\<close>

fun channelLoop :: "platform \<Rightarrow> searchResult list \<Rightarrow> chunk list \<times> nat \<Rightarrow> chunk list \<times> nat" where
  "channelLoop p [] st = st"
| "channelLoop p (result # rest) (response, totalMessagesDisplayed) =
     (if totalMessagesDisplayed \<ge> MAX_MESSAGES_TO_DISPLAY
      then (response, totalMessagesDisplayed)
      else
        let sortedMessages = sortNewestFirst p (messages result);
            messagesToShow =
              take (MAX_MESSAGES_TO_DISPLAY - totalMessagesDisplayed) sortedMessages
        in channelLoop p rest
             (response @ [ChannelHeader (info_name (channelInfo result))]
                @ map (MessageLine p) messagesToShow @ [Separator],
              totalMessagesDisplayed + length messagesToShow))"

fun platformLoop ::
  "(platform, searchResult list) jsmap \<Rightarrow> chunk list \<times> nat \<Rightarrow> chunk list \<times> nat" where
  "platformLoop [] st = st"
| "platformLoop ((p, platformResults) # rest) (response, totalMessagesDisplayed) =
     (if totalMessagesDisplayed \<ge> MAX_MESSAGES_TO_DISPLAY
      then (response, totalMessagesDisplayed)
      else platformLoop rest
             (channelLoop p platformResults
                (response @ [PlatformHeader p], totalMessagesDisplayed)))"

text \<open>\<^verbatim>\<open>Object.values(searchResults).flatMap(... result.messages).length\<close>\<close>

definition totalMessages :: "(platform, searchResult list) jsmap \<Rightarrow> nat" where
  "totalMessages searchResults =
     length (concat (map (\<lambda>(p, results). concat (map messages results)) searchResults))"

definition formatResults :: "string \<Rightarrow> (platform, searchResult list) jsmap \<Rightarrow> chunk list" where
  "formatResults query searchResults =
     (let (response, totalMessagesDisplayed) = platformLoop searchResults ([Title query], 0)
      in if totalMessages searchResults > totalMessagesDisplayed
         then response @ [Note totalMessagesDisplayed (totalMessages searchResults)]
         else response)"

subsection \<open>handleUserQuery\<close>

definition userNotFoundText :: string where
  "userNotFoundText = ''User data not found. Please try again.''"

definition notConnectedText :: string where
  "notConnectedText =
     ''You are not connected to any messaging platforms. Use /setup to get started.''"

definition noMatchText :: "string \<Rightarrow> string" where
  "noMatchText query =
     ''I couldn'' @ [CHR 0x27] @ ''t find any messages matching your query '' @ [CHR 0x22] @ query
     @ [CHR 0x22] @ ''.'' @ [CHR 0x0A] @ ''    '' @ [CHR 0x0A]
     @ ''Try refining your search or make sure you'' @ [CHR 0x27]
     @ ''re connected to the relevant platforms.''"

text \<open>The text of the one message that \<^verbatim>\<open>handleUserQuery\<close> returns.\<close>

definition handleUserQuery :: "env \<Rightarrow> users \<Rightarrow> string \<Rightarrow> string \<Rightarrow> string" where
  "handleUserQuery e us query uid =
     (case us uid of
        None \<Rightarrow> userNotFoundText
      | Some user \<Rightarrow>
          let anyConnected = (platformClients user Telegram \<or> platformClients user Discord
                              \<or> platformClients user Slack)
          in if \<not> anyConnected then notConnectedText
             else
               let platforms = detectPlatforms user query;
                   timeRange = detectTimeRange query;
                   searchResults =
                     searchPlatforms e user (queryWords query) (channelMentions query)
                       timeRange platforms []
               in if length (mapKeys searchResults) = 0 then noMatchText query
                  else renderResponse e (formatResults query searchResults))"

text \<open>Counting in a response: the message lines, and the chunks that open a section.\<close>

definition isMessageLine :: "chunk \<Rightarrow> bool" where
  "isMessageLine c = (case c of MessageLine p m \<Rightarrow> True | _ \<Rightarrow> False)"

definition isSectionHeader :: "chunk \<Rightarrow> bool" where
  "isSectionHeader c = (case c of PlatformHeader p \<Rightarrow> True | ChannelHeader n \<Rightarrow> True | _ \<Rightarrow> False)"

definition countMessages :: "chunk list \<Rightarrow> nat" where
  "countMessages cs = length (filter isMessageLine cs)"

subsection \<open>Notions used to state the properties\<close>

text \<open>\<open>k\<close> occurs in \<open>s\<close> as a substring.\<close>

definition occursIn :: "string \<Rightarrow> string \<Rightarrow> bool" where
  "occursIn k s = (\<exists>pre post. s = pre @ k @ post)"

text \<open>
  The match condition in the words of the specification: the timestamp is at or after
  the cutoff, and the keyword set is empty or some keyword occurs in the text, letter case
  ignored.
\<close>

definition specMatches :: "platform \<Rightarrow> string list \<Rightarrow> int \<Rightarrow> message \<Rightarrow> bool" where
  "specMatches p keywords cutoff m =
     (timestampOf p m \<ge> cutoff
      \<and> (keywords = [] \<or> (\<exists>k \<in> set keywords. occursIn (toLowerCase k) (toLowerCase (textOf p m)))))"

text \<open>
  The hint condition in the words of the specification: the channel has a first stored
  message, and some hint occurs in that message's channel-name field, letter case
  ignored, or equals the channel id.
\<close>

definition specHintMatches ::
  "platform \<Rightarrow> (string, message list) jsmap \<Rightarrow> string list \<Rightarrow> string \<Rightarrow> bool" where
  "specHintMatches p platformHistory hints channelId =
     (\<exists>m0 rest. mapGet platformHistory channelId = Some (m0 # rest)
        \<and> (\<exists>h \<in> set hints.
              occursIn (toLowerCase h)
                (toLowerCase (if p = Telegram then chatTitle m0 else channelName m0))
              \<or> channelId = h))"

text \<open>The trimming step of \<open>storeMessage\<close>, on its own.\<close>

definition trim :: "message list \<Rightarrow> message list" where
  "trim xs = (if length xs > MAX_HISTORY_PER_CHANNEL then shift xs else xs)"

text \<open>What the channel loop adds for one channel: nothing, or one result.\<close>

definition channelResult ::
  "platform \<Rightarrow> (string, message list) jsmap \<Rightarrow> string list \<Rightarrow> int \<Rightarrow> string
   \<Rightarrow> searchResult list" where
  "channelResult p h keywords cutoff c =
     (case messagesOrEmpty h c of
        [] \<Rightarrow> []
      | m0 # ms \<Rightarrow>
          if filter (messageMatches p keywords cutoff) (m0 # ms) = [] then []
          else [\<lparr>messages = filter (messageMatches p keywords cutoff) (m0 # ms),
                 channelInfo = \<lparr>info_id = c, info_name = channelNameOf p m0\<rparr>\<rparr>])"

text \<open>Every section header of a response stands behind fewer than 20 message lines.\<close>

definition headersBelowCap :: "chunk list \<Rightarrow> bool" where
  "headersBelowCap cs =
     (\<forall>i < length cs. isSectionHeader (cs ! i) \<longrightarrow>
        countMessages (take i cs) < MAX_MESSAGES_TO_DISPLAY)"


text \<open>A zone with a fixed offset from UTC.\<close>

definition fixedZone :: "int \<Rightarrow> timeZone" where
  "fixedZone k = \<lparr>utcOffset = (\<lambda>t. k), localOffset = (\<lambda>t. k)\<rparr>"

subsection \<open>Example data\<close>

definition exampleMessage :: "nat \<Rightarrow> message" where
  "exampleMessage i =
     \<lparr>msgId = showNat i, msgText = ''hello'', content = ''hello'', date = int i,
      timestamp = int i * 1000, chatTitle = ''General'', channelName = ''General'',
      senderName = ''Ann'', authorName = ''Ann'', userName = ''Ann''\<rparr>"

definition exampleUser :: UserConfig where
  "exampleUser =
     \<lparr>userId = ''u1'', platformClients = (\<lambda>p. p = Telegram), messageHistory = (\<lambda>p. [])\<rparr>"

definition exampleEnv :: env where
  "exampleEnv =
     \<lparr>now = 1700000000000, zone = fixedZone 0, toLocaleString = (\<lambda>t. showNat (nat t))\<rparr>"





definition discordMessage :: "string \<Rightarrow> string \<Rightarrow> int \<Rightarrow> message" where
  "discordMessage name body ts =
     \<lparr>msgId = ''1'', msgText = [], content = body, date = 0, timestamp = ts,
      chatTitle = [], channelName = name, senderName = [], authorName = ''Ann'',
      userName = []\<rparr>"

text \<open>A user connected to Discord, with three tracked channels.\<close>

definition discordHistory :: "(string, message list) jsmap" where
  "discordHistory =
     [(''c1'', [discordMessage ''general'' ''Deploy failed again'' 1699999999000,
                discordMessage ''general'' ''lunch?'' 1699999998000]),
      (''c2'', [discordMessage ''Random'' ''deploy notes from last month'' 1690000000000]),
      (''c3'', [discordMessage ''ops'' ''lots of activity here'' 1699999990000])]"

text \<open>The same history with a fourth channel that holds no message.\<close>

definition historyWithEmptyChannel :: "(string, message list) jsmap" where
  "historyWithEmptyChannel = discordHistory @ [(''c4'', [])]"

definition discordUser :: UserConfig where
  "discordUser =
     \<lparr>userId = ''u2'', platformClients = (\<lambda>p. p = Discord),
      messageHistory = (\<lambda>p. if p = Discord then discordHistory else [])\<rparr>"

text \<open>Thirty matching messages of one platform, ten in each of three channels.\<close>

definition tenMessages :: "string \<Rightarrow> searchResult" where
  "tenMessages name =
     \<lparr>messages = map (\<lambda>i. discordMessage name ''deploy'' (1699999990000 + int i)) [0..<10],
      channelInfo = \<lparr>info_id = name, info_name = name\<rparr>\<rparr>"

definition thirtyMatches :: "(platform, searchResult list) jsmap" where
  "thirtyMatches = [(Discord, [tenMessages ''alpha'', tenMessages ''beta'', tenMessages ''gamma''])]"

text \<open>A user connected to Discord whose one stored message is about lunch.\<close>

definition quietUser :: UserConfig where
  "quietUser =
     \<lparr>userId = ''u4'', platformClients = (\<lambda>p. p = Discord),
      messageHistory =
        (\<lambda>p. if p = Discord
             then [(''c1'', [discordMessage ''general'' ''Lunch?'' 1699999998000])] else [])\<rparr>"

text \<open>A user with an empty store, connected to nothing.\<close>

definition unconnectedUser :: UserConfig where
  "unconnectedUser =
     \<lparr>userId = ''u3'', platformClients = (\<lambda>p. False), messageHistory = (\<lambda>p. [])\<rparr>"

section \<open>Properties of the history store\<close>




lemma mapHas_mapGet: "mapHas m k = (mapGet m k \<noteq> None)"
  by (induction m) (auto split: if_splits)

lemma mapGet_mapSet: "mapGet (mapSet m k v) k' = (if k' = k then Some v else mapGet m k')"
  by (induction m) auto

lemma mapKeys_mapSet:
  "mapKeys (mapSet m k v) = (if mapHas m k then mapKeys m else mapKeys m @ [k])"
  by (induction m) (auto simp: mapKeys_def split: if_splits)

lemma distinct_mapSet: "distinct (mapKeys m) \<Longrightarrow> distinct (mapKeys (mapSet m k v))"
proof (induction m)
  case Nil
  then show ?case by (simp add: mapKeys_def)
next
  case (Cons a m)
  obtain k' v' where a: "a = (k', v')" by (cases a)
  have "set (mapKeys (mapSet m k v)) \<subseteq> insert k (set (mapKeys m))"
    by (auto simp: mapKeys_mapSet)
  with Cons a show ?case
    by (auto simp: mapKeys_def)
qed


lemma storeMessage_present:
  "us uid \<noteq> None \<Longrightarrow> storeMessage uid' p' c' m us uid \<noteq> None"
  by (auto simp: storeMessage_def Let_def split: option.splits)

lemma channelMessagesOf_storeMessage:
  assumes "us uid' \<noteq> None"
  shows "channelMessagesOf (storeMessage uid' p' c' m us) uid p c =
           (if uid' = uid \<and> p' = p \<and> c' = c
            then trim (channelMessagesOf us uid p c @ [m])
            else channelMessagesOf us uid p c)"
  using assms
  by (auto simp: storeMessage_def channelMessagesOf_def Let_def trim_def mapGet_mapSet
      mapHas_mapGet split: option.splits)

lemma trim_lastN:
  assumes le: "length h \<le> MAX_HISTORY_PER_CHANNEL"
  shows "trim (h @ [m]) = lastN MAX_HISTORY_PER_CHANNEL (h @ [m])"
proof (cases "length h = MAX_HISTORY_PER_CHANNEL")
  case True
  then obtain x rest where h: "h = x # rest"
    by (cases h) (auto simp: MAX_HISTORY_PER_CHANNEL_def)
  with True show ?thesis
    by (simp add: trim_def lastN_def shift_def)
next
  case False
  with le show ?thesis
    by (simp add: trim_def lastN_def)
qed

lemma lastN_snoc: "lastN n (lastN n xs @ [x]) = lastN n (xs @ [x])"
  by (cases "length xs \<le> n") (auto simp: lastN_def Suc_diff_le)

lemma length_lastN: "length (lastN n xs) = min (length xs) n"
  by (auto simp: lastN_def)



lemma lastN_append_lastN: "lastN n (lastN n xs @ ys) = lastN n (xs @ ys)"
  by (cases "length xs \<le> n") (auto simp: lastN_def add.commute)

lemma length_trim_le:
  "length h \<le> MAX_HISTORY_PER_CHANNEL \<Longrightarrow> length (trim (h @ [m])) \<le> MAX_HISTORY_PER_CHANNEL"
  by (simp add: trim_lastN length_lastN)

lemma channelMessagesOf_storeMessage':
  assumes "us uid \<noteq> None"
  shows "channelMessagesOf (storeMessage uid' p' c' m us) uid p c =
           (if uid' = uid \<and> p' = p \<and> c' = c
            then trim (channelMessagesOf us uid p c @ [m])
            else channelMessagesOf us uid p c)"
proof (cases "us uid' = None")
  case True
  with assms have "uid' \<noteq> uid" by auto
  with True show ?thesis by (simp add: storeMessage_def)
next
  case False
  then show ?thesis by (rule channelMessagesOf_storeMessage)
qed

lemma deliveredTo_Cons:
  "deliveredTo uid p c ((uid', p', c', m) # es) =
     (if uid' = uid \<and> p' = p \<and> c' = c then m # deliveredTo uid p c es
      else deliveredTo uid p c es)"
  by (simp add: deliveredTo_def)

lemma storeAll_channel:
  assumes "us uid \<noteq> None"
    and "length (channelMessagesOf us uid p c) \<le> MAX_HISTORY_PER_CHANNEL"
  shows "channelMessagesOf (storeAll es us) uid p c =
           lastN MAX_HISTORY_PER_CHANNEL (channelMessagesOf us uid p c @ deliveredTo uid p c es)"
  using assms
proof (induction es arbitrary: us)
  case Nil
  then show ?case by (simp add: deliveredTo_def lastN_def)
next
  case (Cons e es)
  obtain uid' p' c' m where e: "e = (uid', p', c', m)" by (cases e)
  let ?us1 = "storeMessage uid' p' c' m us"
  let ?h = "channelMessagesOf us uid p c"
  have pres: "?us1 uid \<noteq> None" using Cons.prems(1) by (rule storeMessage_present)
  have step: "channelMessagesOf ?us1 uid p c =
      (if uid' = uid \<and> p' = p \<and> c' = c then trim (?h @ [m]) else ?h)"
    using Cons.prems(1) by (rule channelMessagesOf_storeMessage')
  have len: "length (channelMessagesOf ?us1 uid p c) \<le> MAX_HISTORY_PER_CHANNEL"
    using Cons.prems(2) by (simp add: step length_trim_le)
  have "channelMessagesOf (storeAll (e # es) us) uid p c =
      lastN MAX_HISTORY_PER_CHANNEL (channelMessagesOf ?us1 uid p c @ deliveredTo uid p c es)"
    using Cons.IH[OF pres len] by (simp add: e)
  also have "\<dots> = lastN MAX_HISTORY_PER_CHANNEL (?h @ deliveredTo uid p c (e # es))"
  proof (cases "uid' = uid \<and> p' = p \<and> c' = c")
    case True
    have "lastN MAX_HISTORY_PER_CHANNEL (lastN MAX_HISTORY_PER_CHANNEL (?h @ [m]) @ deliveredTo uid p c es)
        = lastN MAX_HISTORY_PER_CHANNEL ((?h @ [m]) @ deliveredTo uid p c es)"
      by (rule lastN_append_lastN)
    moreover have "channelMessagesOf ?us1 uid p c = trim (?h @ [m])"
      using step True by simp
    moreover have "trim (?h @ [m]) = lastN MAX_HISTORY_PER_CHANNEL (?h @ [m])"
      using Cons.prems(2) by (rule trim_lastN)
    moreover have "deliveredTo uid p c (e # es) = m # deliveredTo uid p c es"
      using True by (simp add: e deliveredTo_Cons)
    ultimately show ?thesis by simp
  next
    case False
    have a: "channelMessagesOf ?us1 uid p c = ?h"
      unfolding step using False by (rule if_not_P)
    have b: "deliveredTo uid p c (e # es) = deliveredTo uid p c es"
      unfolding e deliveredTo_Cons using False by (rule if_not_P)
    show ?thesis by (simp only: a b)
  qed
  finally show ?case .
qed

lemma storeAll_append: "storeAll (es @ es') us = storeAll es' (storeAll es us)"
  by (induction es arbitrary: us) auto

lemma storeAll_present: "us uid \<noteq> None \<Longrightarrow> storeAll es us uid \<noteq> None"
proof (induction es us rule: storeAll.induct)
  case (1 us)
  then show ?case by simp
next
  case (2 uid' p' c' m es us)
  have "storeMessage uid' p' c' m us uid \<noteq> None"
    using "2.prems" by (rule storeMessage_present)
  then show ?case using "2.IH" by simp
qed

text \<open>
  C1 (bounded FIFO retention). For a user present in the store and a channel
  \<open>(p, c)\<close> that holds no message yet, after any sequence of calls of \<open>storeMessage\<close>
  (to this or to any other channel or user) the channel holds the last \<open>min N 500\<close>
  of the \<open>N\<close> messages appended to it, in arrival order, so its length is
  \<open>min N 500\<close>; one more append keeps the stored sequence and adds the message at
  the tail, and when that would exceed 500 it drops exactly the head.
\<close>

theorem storeMessage_bounded_fifo:
  assumes "us uid \<noteq> None"
    and "channelMessagesOf us uid p c = []"
  shows "channelMessagesOf (storeAll es us) uid p c = lastN 500 (deliveredTo uid p c es)
       \<and> length (channelMessagesOf (storeAll es us) uid p c)
           = min (length (deliveredTo uid p c es)) 500
       \<and> channelMessagesOf (storeAll (es @ [(uid, p, c, m)]) us) uid p c =
           (let h = channelMessagesOf (storeAll es us) uid p c
            in if length h + 1 > 500 then tl h @ [m] else h @ [m])"
proof -
  have len0: "length (channelMessagesOf us uid p c) \<le> MAX_HISTORY_PER_CHANNEL"
    using assms(2) by simp
  have eq: "channelMessagesOf (storeAll es us) uid p c = lastN 500 (deliveredTo uid p c es)"
    using storeAll_channel[OF assms(1) len0, of es] assms(2)
    by (simp add: MAX_HISTORY_PER_CHANNEL_def)
  have len: "length (channelMessagesOf (storeAll es us) uid p c)
      = min (length (deliveredTo uid p c es)) 500"
    by (simp add: eq length_lastN)
  let ?h = "channelMessagesOf (storeAll es us) uid p c"
  have "channelMessagesOf (storeAll (es @ [(uid, p, c, m)]) us) uid p c = trim (?h @ [m])"
    using storeAll_present[of us uid es] assms(1)
    by (simp add: storeAll_append channelMessagesOf_storeMessage')
  moreover have "trim (?h @ [m]) = (if length ?h + 1 > 500 then tl ?h @ [m] else ?h @ [m])"
    by (cases ?h) (auto simp: trim_def shift_def MAX_HISTORY_PER_CHANNEL_def)
  ultimately have step: "channelMessagesOf (storeAll (es @ [(uid, p, c, m)]) us) uid p c =
           (let h = ?h in if length h + 1 > 500 then tl h @ [m] else h @ [m])"
    by (simp add: Let_def)
  from eq len step show ?thesis by blast
qed

lemma deliveredTo_same:
  "deliveredTo uid p c (map (\<lambda>i. (uid, p, c, f i)) ns) = map f ns"
  by (induction ns) (auto simp: deliveredTo_def)

theorem storeMessage_bounded_fifo_witness:
  "[''u1'' \<mapsto> exampleUser] ''u1'' \<noteq> None
   \<and> channelMessagesOf [''u1'' \<mapsto> exampleUser] ''u1'' Telegram ''general'' = []
   \<and> channelMessagesOf
        (storeAll (map (\<lambda>i. (''u1'', Telegram, ''general'', exampleMessage i)) [1..<502])
           [''u1'' \<mapsto> exampleUser])
        ''u1'' Telegram ''general'' = map exampleMessage [2..<502]
   \<and> channelMessagesOf
        (storeAll (map (\<lambda>i. (''u1'', Telegram, ''general'', exampleMessage i)) [1..<501]
                   @ [(''u1'', Telegram, ''general'', exampleMessage 501)])
           [''u1'' \<mapsto> exampleUser])
        ''u1'' Telegram ''general'' = map exampleMessage [2..<501] @ [exampleMessage 501]"
proof -
  let ?us = "[''u1'' \<mapsto> exampleUser]"
  let ?ev = "\<lambda>i. (''u1'', Telegram, ''general'', exampleMessage i)"
  have present: "?us ''u1'' \<noteq> None" by simp
  have empty: "channelMessagesOf ?us ''u1'' Telegram ''general'' = []"
    by (simp add: channelMessagesOf_def exampleUser_def)
  have a: "channelMessagesOf (storeAll (map ?ev [1..<502]) ?us) ''u1'' Telegram ''general''
      = map exampleMessage [2..<502]"
    using storeMessage_bounded_fifo[OF present empty, of "map ?ev [1..<502]"]
    by (simp add: deliveredTo_same lastN_def drop_map numeral_2_eq_2 del: upt_rec_numeral)
  have b: "channelMessagesOf (storeAll (map ?ev [1..<501]) ?us) ''u1'' Telegram ''general''
      = map exampleMessage [1..<501]"
    using storeMessage_bounded_fifo[OF present empty, of "map ?ev [1..<501]"]
    by (simp add: deliveredTo_same lastN_def numeral_2_eq_2 del: upt_rec_numeral)
  have c0: "channelMessagesOf (storeAll (map ?ev [1..<501] @ [?ev 501]) ?us)
        ''u1'' Telegram ''general'' =
        (let h = channelMessagesOf (storeAll (map ?ev [1..<501]) ?us) ''u1'' Telegram ''general''
         in if length h + 1 > 500 then tl h @ [exampleMessage 501] else h @ [exampleMessage 501])"
    by (rule storeMessage_bounded_fifo[OF present empty, of "map ?ev [1..<501]" "exampleMessage 501",
          THEN conjunct2, THEN conjunct2])
  have c: "channelMessagesOf (storeAll (map ?ev [1..<501] @ [?ev 501]) ?us)
        ''u1'' Telegram ''general'' = map exampleMessage [2..<501] @ [exampleMessage 501]"
    unfolding c0 b Let_def
    by (simp add: map_tl[symmetric] tl_upt numeral_2_eq_2 del: map_tl upt_rec_numeral)
  from present empty a c show ?thesis by blast
qed

text \<open>
  C10 (unknown user). \<open>storeMessage\<close> for a user id that is not in \<open>users\<close> returns
  the store unchanged: no user entry is created and no history changes.
\<close>

theorem storeMessage_unknown_user_noop:
  assumes "us uid = None"
  shows "storeMessage uid p c m us = us"
  using assms by (simp add: storeMessage_def)


theorem storeMessage_unknown_user_noop_witness:
  "[''u1'' \<mapsto> exampleUser] ''u2'' = None
   \<and> storeMessage ''u2'' Slack ''C42'' (exampleMessage 7) [''u1'' \<mapsto> exampleUser]
       = [''u1'' \<mapsto> exampleUser]"
proof -
  have h: "[''u1'' \<mapsto> exampleUser] ''u2'' = None" by simp
  show ?thesis
    using h storeMessage_unknown_user_noop[of "[''u1'' \<mapsto> exampleUser]" "''u2''" Slack "''C42''" "exampleMessage 7"]
    by simp
qed

section \<open>Properties of the query interpreter\<close>

lemma startsWith_iff: "startsWith s k = (\<exists>post. s = k @ post)"
  by (induction s k rule: startsWith.induct) auto

lemma includesStr_iff: "includesStr s k = occursIn k s"
proof (induction s)
  case Nil
  then show ?case by (auto simp: occursIn_def)
next
  case (Cons c cs)
  have "occursIn k (c # cs) = ((\<exists>post. c # cs = k @ post) \<or> occursIn k cs)"
  proof
    assume "occursIn k (c # cs)"
    then obtain pre post where eq: "c # cs = pre @ k @ post" by (auto simp: occursIn_def)
    show "(\<exists>post. c # cs = k @ post) \<or> occursIn k cs"
    proof (cases pre)
      case Nil
      with eq show ?thesis by auto
    next
      case (Cons a pre')
      with eq have "cs = pre' @ k @ post" by simp
      then show ?thesis by (auto simp: occursIn_def)
    qed
  next
    assume "(\<exists>post. c # cs = k @ post) \<or> occursIn k cs"
    then show "occursIn k (c # cs)"
    proof
      assume "\<exists>post. c # cs = k @ post"
      then obtain post where "c # cs = [] @ k @ post" by auto
      then show ?thesis unfolding occursIn_def by blast
    next
      assume "occursIn k cs"
      then obtain pre post where "cs = pre @ k @ post" by (auto simp: occursIn_def)
      then have "c # cs = (c # pre) @ k @ post" by simp
      then show ?thesis unfolding occursIn_def by blast
    qed
  qed
  with Cons show ?case by (simp add: startsWith_iff)
qed

lemmas lower_eval = toLowerCase_def toLowerChar_def char_of_def bit_Suc_0_iff

lemma some_iff: "some f xs = (\<exists>x \<in> set xs. f x)"
  by (induction xs) auto

lemma mentionsAny_iff:
  "mentionsAny query keywords = (\<exists>k \<in> set keywords. occursIn k (toLowerCase query))"
  by (simp add: mentionsAny_def some_iff includesStr_iff)

lemma detectTimeRangeLoop_find:
  "detectTimeRangeLoop tab query d =
     (case find (\<lambda>(r, keywords). \<exists>k \<in> set keywords. occursIn k (toLowerCase query)) tab of
        None \<Rightarrow> d
      | Some (r, keywords) \<Rightarrow> r)"
  by (induction tab query d rule: detectTimeRangeLoop.induct) (auto simp: mentionsAny_iff)

text \<open>
  C4 (time-range priority). The ranges are tried in the order recent, today, yesterday,
  thisWeek; the result is the first range one of whose keywords occurs in the lowercased
  query, and recent when there is none. The query \<open>show me today and yesterday\<close> gives
  today.
\<close>

theorem detectTimeRange_priority:
  "map fst timeKeywords = [Recent, Today, Yesterday, ThisWeek]
   \<and> detectTimeRange query =
       (case find (\<lambda>(r, keywords). \<exists>k \<in> set keywords. occursIn k (toLowerCase query))
               timeKeywords of
          None \<Rightarrow> Recent
        | Some (r, keywords) \<Rightarrow> r)
   \<and> detectTimeRange ''show me today and yesterday'' = Today"
proof -
  have a: "map fst timeKeywords = [Recent, Today, Yesterday, ThisWeek]"
    by (simp add: timeKeywords_def)
  have b: "detectTimeRange query =
       (case find (\<lambda>(r, keywords). \<exists>k \<in> set keywords. occursIn k (toLowerCase query))
               timeKeywords of
          None \<Rightarrow> Recent
        | Some (r, keywords) \<Rightarrow> r)"
    unfolding detectTimeRange_def by (rule detectTimeRangeLoop_find)
  have c: "detectTimeRange ''show me today and yesterday'' = Today"
    by (simp add: detectTimeRange_def timeKeywords_def mentionsAny_def lower_eval)
  from a b c show ?thesis by blast
qed

theorem detectTimeRange_priority_witness:
  "detectTimeRange ''Anything new This Week in Slack?'' = ThisWeek
   \<and> find (\<lambda>(r, keywords). \<exists>k \<in> set keywords.
              occursIn k (toLowerCase ''Anything new This Week in Slack?'')) timeKeywords
       = Some (ThisWeek, [''this week'', ''past week'', ''last 7 days''])"
proof -
  have f: "find (\<lambda>(r, keywords). \<exists>k \<in> set keywords.
              occursIn k (toLowerCase ''Anything new This Week in Slack?'')) timeKeywords
       = Some (ThisWeek, [''this week'', ''past week'', ''last 7 days''])"
    by (simp add: timeKeywords_def includesStr_iff[symmetric] lower_eval)
  show ?thesis
    using detectTimeRange_priority[of "''Anything new This Week in Slack?''"]
    by (simp add: f)
qed


text \<open>
  C9, as the code has it. The keyword \<open>today\<close> does not occur in the word
  \<open>yesterday\<close>. A query that contains \<open>yesterday\<close> and none of \<open>recent\<close>,
  \<open>latest\<close>, \<open>last\<close>, \<open>newest\<close> is assigned yesterday, unless it also contains
  \<open>today\<close> or \<open>this day\<close>, and then it is assigned today. The range yesterday is
  reached exactly by the queries that contain \<open>yesterday\<close> or \<open>past day\<close> and none
  of the six keywords of the two ranges before it.
\<close>

theorem detectTimeRange_yesterday:
  "(occursIn ''yesterday'' (toLowerCase query)
      \<and> \<not> (\<exists>k \<in> set [''recent'', ''latest'', ''last'', ''newest'']. occursIn k (toLowerCase query))
    \<longrightarrow> detectTimeRange query =
          (if occursIn ''today'' (toLowerCase query) \<or> occursIn ''this day'' (toLowerCase query)
           then Today else Yesterday))
   \<and> (detectTimeRange query = Yesterday \<longleftrightarrow>
        (occursIn ''yesterday'' (toLowerCase query) \<or> occursIn ''past day'' (toLowerCase query))
        \<and> \<not> (\<exists>k \<in> set [''recent'', ''latest'', ''last'', ''newest'', ''today'', ''this day''].
                occursIn k (toLowerCase query)))"
  by (auto simp: detectTimeRange_def timeKeywords_def mentionsAny_iff)

theorem detectTimeRange_yesterday_witness:
  "occursIn ''yesterday'' (toLowerCase ''What did John say yesterday?'')
   \<and> \<not> (\<exists>k \<in> set [''recent'', ''latest'', ''last'', ''newest''].
            occursIn k (toLowerCase ''What did John say yesterday?''))
   \<and> detectTimeRange ''What did John say yesterday?'' = Yesterday"
proof -
  have a: "occursIn ''yesterday'' (toLowerCase ''What did John say yesterday?'')"
    by (simp add: includesStr_iff[symmetric] lower_eval)
  have b: "\<not> (\<exists>k \<in> set [''recent'', ''latest'', ''last'', ''newest''].
            occursIn k (toLowerCase ''What did John say yesterday?''))"
    by (simp add: includesStr_iff[symmetric] lower_eval)
  have c: "\<not> (occursIn ''today'' (toLowerCase ''What did John say yesterday?'')
            \<or> occursIn ''this day'' (toLowerCase ''What did John say yesterday?''))"
    by (simp add: includesStr_iff[symmetric] lower_eval)
  show ?thesis
    using detectTimeRange_yesterday[of "''What did John say yesterday?''"] a b c
    by simp
qed

theorem detectTimeRange_yesterday_counterexample:
  "includesStr (toLowerCase ''What did John say yesterday?'') ''yesterday''
   \<and> \<not> mentionsAny ''What did John say yesterday?'' [''recent'', ''latest'', ''last'', ''newest'']
   \<and> detectTimeRange ''What did John say yesterday?'' = Yesterday
   \<and> detectTimeRange ''What did John say yesterday?'' \<noteq> Today"
  by (simp add: detectTimeRange_def timeKeywords_def mentionsAny_def lower_eval)

section \<open>Properties of the search\<close>

lemma messageMatches_iff: "messageMatches p keywords cutoff m = specMatches p keywords cutoff m"
  by (auto simp: messageMatches_def specMatches_def some_iff includesStr_iff)

lemma hintMatches_iff:
  "hintMatches p h hints c = specHintMatches p h hints c"
proof (cases "mapGet h c")
  case None
  then show ?thesis
    by (simp add: hintMatches_def specHintMatches_def messagesOrEmpty_def)
next
  case (Some ms)
  then show ?thesis
    by (cases ms)
      (auto simp: hintMatches_def specHintMatches_def messagesOrEmpty_def some_iff
        includesStr_iff channelNameOf_def)
qed

lemma searchLoop_concat:
  "searchLoop p h keywords cutoff cs rs =
     rs @ concat (map (channelResult p h keywords cutoff) cs)"
proof (induction cs arbitrary: rs)
  case Nil
  then show ?case by simp
next
  case (Cons c cs)
  show ?case
  proof (cases "messagesOrEmpty h c")
    case Nil
    then show ?thesis by (simp add: Cons.IH channelResult_def)
  next
    case (Cons m0 ms)
    then show ?thesis by (simp add: Cons.IH channelResult_def Let_def)
  qed
qed

lemma channelResult_ids:
  "map (\<lambda>r. info_id (channelInfo r)) (channelResult p h keywords cutoff c) =
     (if \<exists>m \<in> set (messagesOrEmpty h c). specMatches p keywords cutoff m then [c] else [])"
  by (cases "messagesOrEmpty h c")
    (auto simp: channelResult_def filter_empty_conv messageMatches_iff)

lemma channelResult_messages:
  "r \<in> set (channelResult p h keywords cutoff c) \<Longrightarrow>
     info_id (channelInfo r) = c
     \<and> messages r = filter (specMatches p keywords cutoff) (messagesOrEmpty h c)
     \<and> messages r \<noteq> []"
proof (cases "messagesOrEmpty h c")
  case Nil
  assume "r \<in> set (channelResult p h keywords cutoff c)"
  with Nil show ?thesis by (simp add: channelResult_def)
next
  case (Cons m0 ms)
  assume "r \<in> set (channelResult p h keywords cutoff c)"
  with Cons have "r = \<lparr>messages = filter (messageMatches p keywords cutoff) (m0 # ms),
                 channelInfo = \<lparr>info_id = c, info_name = channelNameOf p m0\<rparr>\<rparr>"
    and "filter (messageMatches p keywords cutoff) (m0 # ms) \<noteq> []"
    by (auto simp: channelResult_def split: if_splits)
  with Cons show ?thesis
    by (simp add: messageMatches_iff[abs_def])
qed

lemma concat_map_ids:
  "map f (concat (map g cs)) = concat (map (\<lambda>c. map f (g c)) cs)"
  by (induction cs) auto

lemma concat_map_filter:
  "concat (map (\<lambda>c. if P c then [c] else []) cs) = filter P cs"
  by (induction cs) auto

text \<open>
  C7 (search filter). The channels of the result are, in order, the searched channels
  that hold at least one matching message, and the messages of each result are exactly
  the stored messages of its channel that match, in stored order: a message matches when
  its timestamp is at or after the cutoff and the keyword list is empty or some keyword
  occurs in its text, letter case ignored.
\<close>

theorem searchMessages_filter:
  "map (\<lambda>r. info_id (channelInfo r)) (searchMessages e user p keywords hints tr) =
     filter (\<lambda>c. \<exists>m \<in> set (messagesOrEmpty (messageHistory user p) c).
                    specMatches p keywords (cutoffTime e tr) m)
       (channelsToSearch p (messageHistory user p) hints)
   \<and> (\<forall>r \<in> set (searchMessages e user p keywords hints tr).
         messages r =
           filter (specMatches p keywords (cutoffTime e tr))
             (messagesOrEmpty (messageHistory user p) (info_id (channelInfo r)))
         \<and> messages r \<noteq> [])"
proof -
  let ?h = "messageHistory user p"
  let ?cut = "cutoffTime e tr"
  let ?cs = "channelsToSearch p ?h hints"
  have sm: "searchMessages e user p keywords hints tr =
      concat (map (channelResult p ?h keywords ?cut) ?cs)"
    by (simp add: searchMessages_def Let_def searchLoop_concat)
  have ids: "map (\<lambda>r. info_id (channelInfo r)) (searchMessages e user p keywords hints tr) =
     filter (\<lambda>c. \<exists>m \<in> set (messagesOrEmpty ?h c). specMatches p keywords ?cut m) ?cs"
    unfolding sm concat_map_ids channelResult_ids by (rule concat_map_filter)
  have msgs: "messages r = filter (specMatches p keywords ?cut)
             (messagesOrEmpty ?h (info_id (channelInfo r))) \<and> messages r \<noteq> []"
    if "r \<in> set (searchMessages e user p keywords hints tr)" for r
  proof -
    from that obtain c where "r \<in> set (channelResult p ?h keywords ?cut c)"
      unfolding sm by auto
    note cr = channelResult_messages[OF this]
    from cr have id: "info_id (channelInfo r) = c" by (rule conjunct1)
    from cr show ?thesis unfolding id by (rule conjunct2)
  qed
  from ids msgs show ?thesis by blast
qed

theorem searchMessages_filter_witness:
  "map (\<lambda>r. info_id (channelInfo r))
     (searchMessages exampleEnv discordUser Discord [''deploy''] [] Recent) = [''c1'']
   \<and> filter (\<lambda>c. \<exists>m \<in> set (messagesOrEmpty (messageHistory discordUser Discord) c).
                    specMatches Discord [''deploy''] (cutoffTime exampleEnv Recent) m)
       (channelsToSearch Discord (messageHistory discordUser Discord) []) = [''c1'']
   \<and> map messages (searchMessages exampleEnv discordUser Discord [''deploy''] [] Recent) =
       [[discordMessage ''general'' ''Deploy failed again'' 1699999999000]]
   \<and> filter (specMatches Discord [''deploy''] (cutoffTime exampleEnv Recent))
       (messagesOrEmpty (messageHistory discordUser Discord) ''c1'') =
       [discordMessage ''general'' ''Deploy failed again'' 1699999999000]"
proof -
  let ?rs = "searchMessages exampleEnv discordUser Discord [''deploy''] [] Recent"
  let ?r = "\<lparr>messages = [discordMessage ''general'' ''Deploy failed again'' 1699999999000],
            channelInfo = \<lparr>info_id = ''c1'', info_name = ''general''\<rparr>\<rparr>"
  note inst = searchMessages_filter[of exampleEnv discordUser Discord "[''deploy'']" "[]" Recent]
  have ev: "?rs = [?r]"
    by code_simp
  have a: "map (\<lambda>r. info_id (channelInfo r)) ?rs = [''c1'']"
    by (simp add: ev)
  have b: "filter (\<lambda>c. \<exists>m \<in> set (messagesOrEmpty (messageHistory discordUser Discord) c).
                    specMatches Discord [''deploy''] (cutoffTime exampleEnv Recent) m)
       (channelsToSearch Discord (messageHistory discordUser Discord) []) = [''c1'']"
    using inst[THEN conjunct1] a by simp
  have c: "map messages ?rs = [[discordMessage ''general'' ''Deploy failed again'' 1699999999000]]"
    by (simp add: ev)
  have "?r \<in> set ?rs" by (simp add: ev)
  with inst[THEN conjunct2] have "messages ?r =
      filter (specMatches Discord [''deploy''] (cutoffTime exampleEnv Recent))
        (messagesOrEmpty (messageHistory discordUser Discord) (info_id (channelInfo ?r)))"
    by blast
  then have d: "filter (specMatches Discord [''deploy''] (cutoffTime exampleEnv Recent))
       (messagesOrEmpty (messageHistory discordUser Discord) ''c1'') =
       [discordMessage ''general'' ''Deploy failed again'' 1699999999000]"
    by simp
  from a b c d show ?thesis by blast
qed

text \<open>
  C8 (channel hints). With no hint every tracked channel is searched. With hints, the
  searched channels are, in order, the tracked channels that have a first stored message
  and for which some hint occurs in that message's channel-name field (\<open>chatTitle\<close> on
  Telegram, \<open>channelName\<close> elsewhere), letter case ignored, or equals the channel id; a
  channel without stored messages is never among them.
\<close>

theorem channelsToSearch_hints:
  "channelsToSearch p h hints =
     (if hints = [] then mapKeys h else filter (specHintMatches p h hints) (mapKeys h))
   \<and> (hints \<noteq> [] \<and> messagesOrEmpty h c = [] \<longrightarrow> c \<notin> set (channelsToSearch p h hints))"
proof -
  have a: "channelsToSearch p h hints =
     (if hints = [] then mapKeys h else filter (specHintMatches p h hints) (mapKeys h))"
    by (simp add: channelsToSearch_def hintMatches_iff[abs_def])
  have b: "\<not> specHintMatches p h hints c" if "messagesOrEmpty h c = []"
    using that by (auto simp: specHintMatches_def messagesOrEmpty_def)
  from a b show ?thesis by auto
qed


theorem channelsToSearch_hints_witness:
  "channelsToSearch Discord historyWithEmptyChannel [''RAND'', ''c3'', ''c4''] = [''c2'', ''c3'']
   \<and> filter (specHintMatches Discord historyWithEmptyChannel [''RAND'', ''c3'', ''c4''])
         (mapKeys historyWithEmptyChannel) = [''c2'', ''c3'']
   \<and> mapKeys historyWithEmptyChannel = [''c1'', ''c2'', ''c3'', ''c4'']
   \<and> messagesOrEmpty historyWithEmptyChannel ''c4'' = []
   \<and> ''c4'' \<notin> set (channelsToSearch Discord historyWithEmptyChannel [''RAND'', ''c3'', ''c4''])
   \<and> channelsToSearch Discord historyWithEmptyChannel [] = [''c1'', ''c2'', ''c3'', ''c4'']"
proof -
  note inst = channelsToSearch_hints[of Discord historyWithEmptyChannel
      "[''RAND'', ''c3'', ''c4'']" "''c4''"]
  have ev: "channelsToSearch Discord historyWithEmptyChannel [''RAND'', ''c3'', ''c4'']
      = [''c2'', ''c3'']"
    by code_simp
  have keys: "mapKeys historyWithEmptyChannel = [''c1'', ''c2'', ''c3'', ''c4'']"
    by code_simp
  have empty: "messagesOrEmpty historyWithEmptyChannel ''c4'' = []"
    by code_simp
  have b: "filter (specHintMatches Discord historyWithEmptyChannel [''RAND'', ''c3'', ''c4''])
         (mapKeys historyWithEmptyChannel) = [''c2'', ''c3'']"
    using inst[THEN conjunct1] ev by simp
  have c: "''c4'' \<notin> set (channelsToSearch Discord historyWithEmptyChannel [''RAND'', ''c3'', ''c4''])"
    using inst[THEN conjunct2] empty by simp
  have d: "channelsToSearch Discord historyWithEmptyChannel [] = [''c1'', ''c2'', ''c3'', ''c4'']"
    using channelsToSearch_hints[of Discord historyWithEmptyChannel "[]" "''c4''", THEN conjunct1]
      keys by simp
  from ev b keys empty c d show ?thesis by blast
qed

section \<open>Properties of the query handler\<close>

lemma searchMessages_concat:
  "searchMessages e user p keywords hints tr =
     concat (map (channelResult p (messageHistory user p) keywords (cutoffTime e tr))
       (channelsToSearch p (messageHistory user p) hints))"
  by (simp add: searchMessages_def Let_def searchLoop_concat)

lemma channelResult_empty_iff:
  "channelResult p h keywords cutoff c = [] \<longleftrightarrow>
     (\<forall>m \<in> set (messagesOrEmpty h c). \<not> specMatches p keywords cutoff m)"
  by (cases "messagesOrEmpty h c")
    (auto simp: channelResult_def filter_empty_conv messageMatches_iff)

lemma searchMessages_empty_iff:
  "searchMessages e user p keywords hints tr = [] \<longleftrightarrow>
     (\<forall>c \<in> set (channelsToSearch p (messageHistory user p) hints).
        \<forall>m \<in> set (messagesOrEmpty (messageHistory user p) c).
          \<not> specMatches p keywords (cutoffTime e tr) m)"
  by (simp add: searchMessages_concat channelResult_empty_iff)

lemma searchPlatforms_no_results:
  "(\<forall>p \<in> set ps. searchMessages e user p keywords hints tr = []) \<Longrightarrow>
     searchPlatforms e user keywords hints tr ps acc = acc"
  by (induction ps arbitrary: acc) (auto simp: Let_def)

lemma handleUserQuery_no_results:
  assumes "us uid = Some user"
    and "platformClients user Telegram \<or> platformClients user Discord \<or> platformClients user Slack"
    and "\<forall>p \<in> set (detectPlatforms user query).
           searchMessages e user p (queryWords query) (channelMentions query)
             (detectTimeRange query) = []"
  shows "handleUserQuery e us query uid = noMatchText query"
  using assms
  by (simp add: handleUserQuery_def Let_def searchPlatforms_no_results mapKeys_def)

text \<open>
  C3, as the code has it. For a known user whose store holds no message, the answer
  to every query is the fixed text that no messages were found, with the query in it,
  when at least one platform is connected; with no platform connected the handler
  returns before the search, with the fixed text that the user is not connected.
\<close>

theorem handleUserQuery_empty_store:
  assumes "us uid = Some user"
    and "\<forall>p c. messagesOrEmpty (messageHistory user p) c = []"
  shows "handleUserQuery e us query uid =
           (if platformClients user Telegram \<or> platformClients user Discord
               \<or> platformClients user Slack
            then noMatchText query else notConnectedText)"
proof (cases "platformClients user Telegram \<or> platformClients user Discord
               \<or> platformClients user Slack")
  case True
  have "searchMessages e user p kws hints tr = []" for p kws hints tr
    using assms(2) by (simp add: searchMessages_empty_iff)
  then have "handleUserQuery e us query uid = noMatchText query"
    using assms(1) True by (intro handleUserQuery_no_results) auto
  with True show ?thesis by simp
next
  case False
  with assms(1) show ?thesis by (simp add: handleUserQuery_def)
qed

theorem handleUserQuery_empty_store_witness:
  "[''u1'' \<mapsto> exampleUser] ''u1'' = Some exampleUser
   \<and> (\<forall>p c. messagesOrEmpty (messageHistory exampleUser p) c = [])
   \<and> platformClients exampleUser Telegram
   \<and> handleUserQuery exampleEnv [''u1'' \<mapsto> exampleUser] ''any news?'' ''u1''
       = noMatchText ''any news?''"
proof -
  have a: "[''u1'' \<mapsto> exampleUser] ''u1'' = Some exampleUser" by simp
  have b: "\<forall>p c. messagesOrEmpty (messageHistory exampleUser p) c = []"
    by (simp add: exampleUser_def messagesOrEmpty_def)
  have c: "platformClients exampleUser Telegram" by (simp add: exampleUser_def)
  show ?thesis
    using handleUserQuery_empty_store[of "[''u1'' \<mapsto> exampleUser]" "''u1''" exampleUser
        exampleEnv "''any news?''"] a b c
    by simp
qed

theorem handleUserQuery_unconnected_counterexample:
  "[''u3'' \<mapsto> unconnectedUser] ''u3'' = Some unconnectedUser
   \<and> messageHistory unconnectedUser Telegram = []
   \<and> messageHistory unconnectedUser Discord = []
   \<and> messageHistory unconnectedUser Slack = []
   \<and> handleUserQuery exampleEnv [''u3'' \<mapsto> unconnectedUser] ''any news?'' ''u3''
       = ''You are not connected to any messaging platforms. Use /setup to get started.''
   \<and> handleUserQuery exampleEnv [''u3'' \<mapsto> unconnectedUser] ''any news?'' ''u3''
       \<noteq> noMatchText ''any news?''"
  by (simp add: handleUserQuery_def unconnectedUser_def notConnectedText_def noMatchText_def)

lemma parse_recent_discord_activity:
  "queryWords ''recent discord activity'' = [''recent'', ''discord'', ''activity'']
   \<and> detectPlatformsLoop platformKeywords ''recent discord activity'' [] = [Discord]
   \<and> detectTimeRange ''recent discord activity'' = Recent
   \<and> channelMentions ''recent discord activity'' = []"
  by code_simp

lemma lower_keywords:
  "toLowerCase ''recent'' = ''recent''" "toLowerCase ''discord'' = ''discord''"
  "toLowerCase ''activity'' = ''activity''"
  by (simp_all add: lower_eval)

text \<open>
  C5, as the code has it. Trigger words stay in the keywords: the query
  \<open>recent discord activity\<close> selects the platform Discord and the range recent, and
  its keywords are \<open>recent\<close>, \<open>discord\<close> and \<open>activity\<close>. A message matches when
  any one keyword occurs in it, so the search is empty exactly when no Discord message of
  the last 24 hours contains one of the three words, letter case ignored; then the answer
  is the text that no messages were found.
\<close>

theorem recent_discord_activity:
  "queryWords ''recent discord activity'' = [''recent'', ''discord'', ''activity'']
   \<and> detectPlatforms user ''recent discord activity'' = [Discord]
   \<and> detectTimeRange ''recent discord activity'' = Recent
   \<and> (searchMessages e user Discord (queryWords ''recent discord activity'')
         (channelMentions ''recent discord activity'')
         (detectTimeRange ''recent discord activity'') = []
        \<longleftrightarrow>
        (\<forall>c \<in> set (mapKeys (messageHistory user Discord)).
           \<forall>m \<in> set (messagesOrEmpty (messageHistory user Discord) c).
             \<not> (timestamp m \<ge> now e - 24 * 60 * 60 * 1000
                \<and> (occursIn ''recent'' (toLowerCase (content m))
                     \<or> occursIn ''discord'' (toLowerCase (content m))
                     \<or> occursIn ''activity'' (toLowerCase (content m))))))
   \<and> (us uid = Some user
        \<and> (platformClients user Telegram \<or> platformClients user Discord
             \<or> platformClients user Slack)
        \<and> searchMessages e user Discord (queryWords ''recent discord activity'')
             (channelMentions ''recent discord activity'')
             (detectTimeRange ''recent discord activity'') = []
        \<longrightarrow> handleUserQuery e us ''recent discord activity'' uid
              = noMatchText ''recent discord activity'')"
proof -
  note parse = parse_recent_discord_activity
  have kw: "queryWords ''recent discord activity'' = [''recent'', ''discord'', ''activity'']"
    using parse by blast
  have pl: "detectPlatforms user ''recent discord activity'' = [Discord]"
    using parse by (simp add: detectPlatforms_def)
  have tr: "detectTimeRange ''recent discord activity'' = Recent"
    using parse by blast
  have hints: "channelMentions ''recent discord activity'' = []"
    using parse by blast
  have iff: "searchMessages e user Discord (queryWords ''recent discord activity'')
         (channelMentions ''recent discord activity'')
         (detectTimeRange ''recent discord activity'') = []
        \<longleftrightarrow>
        (\<forall>c \<in> set (mapKeys (messageHistory user Discord)).
           \<forall>m \<in> set (messagesOrEmpty (messageHistory user Discord) c).
             \<not> (timestamp m \<ge> now e - 24 * 60 * 60 * 1000
                \<and> (occursIn ''recent'' (toLowerCase (content m))
                     \<or> occursIn ''discord'' (toLowerCase (content m))
                     \<or> occursIn ''activity'' (toLowerCase (content m)))))"
    unfolding kw tr hints searchMessages_empty_iff
    by (simp add: channelsToSearch_def specMatches_def timestampOf_def textOf_def
        lower_keywords)
  have resp: "handleUserQuery e us ''recent discord activity'' uid
              = noMatchText ''recent discord activity''"
    if "us uid = Some user"
      and "platformClients user Telegram \<or> platformClients user Discord
             \<or> platformClients user Slack"
      and "searchMessages e user Discord (queryWords ''recent discord activity'')
             (channelMentions ''recent discord activity'')
             (detectTimeRange ''recent discord activity'') = []"
    using that(1,2) by (rule handleUserQuery_no_results) (simp add: pl that(3))
  from kw pl tr iff resp show ?thesis by blast
qed


theorem recent_discord_activity_witness:
  "[''u4'' \<mapsto> quietUser] ''u4'' = Some quietUser
   \<and> platformClients quietUser Discord
   \<and> searchMessages exampleEnv quietUser Discord (queryWords ''recent discord activity'')
         (channelMentions ''recent discord activity'')
         (detectTimeRange ''recent discord activity'') = []
   \<and> handleUserQuery exampleEnv [''u4'' \<mapsto> quietUser] ''recent discord activity'' ''u4''
       = noMatchText ''recent discord activity''"
proof -
  have a: "[''u4'' \<mapsto> quietUser] ''u4'' = Some quietUser" by simp
  have b: "platformClients quietUser Discord" by (simp add: quietUser_def)
  have c: "searchMessages exampleEnv quietUser Discord (queryWords ''recent discord activity'')
         (channelMentions ''recent discord activity'')
         (detectTimeRange ''recent discord activity'') = []"
    by code_simp
  show ?thesis
    using recent_discord_activity[of quietUser exampleEnv "[''u4'' \<mapsto> quietUser]" "''u4''"]
      a b c
    by blast
qed

theorem recent_discord_activity_counterexample:
  "detectPlatforms discordUser ''recent discord activity'' = [Discord]
   \<and> filter (\<lambda>m. includesStr (toLowerCase (content m)) ''discord'')
        (concat (map snd (messageHistory discordUser Discord))) = []
   \<and> searchMessages exampleEnv discordUser Discord (queryWords ''recent discord activity'')
         (channelMentions ''recent discord activity'')
         (detectTimeRange ''recent discord activity'') =
       [\<lparr>messages = [discordMessage ''ops'' ''lots of activity here'' 1699999990000],
         channelInfo = \<lparr>info_id = ''c3'', info_name = ''ops''\<rparr>\<rparr>]"
  by code_simp

section \<open>Properties of the cutoff\<close>







section \<open>Properties of the formatter\<close>

lemma countMessages_append [simp]:
  "countMessages (xs @ ys) = countMessages xs + countMessages ys"
  by (simp add: countMessages_def)

lemma countMessages_lines [simp]: "countMessages (map (MessageLine p) ms) = length ms"
  by (induction ms) (auto simp: countMessages_def isMessageLine_def)

lemma countMessages_Nil [simp]: "countMessages [] = 0"
  by (simp add: countMessages_def)

lemma countMessages_Cons [simp]:
  "countMessages (c # cs) = (if isMessageLine c then 1 else 0) + countMessages cs"
  by (simp add: countMessages_def)

lemma headersBelowCap_snoc:
  assumes "headersBelowCap xs" and "countMessages xs < MAX_MESSAGES_TO_DISPLAY"
  shows "headersBelowCap (xs @ [h])"
  unfolding headersBelowCap_def
proof (intro allI impI)
  fix i
  assume i: "i < length (xs @ [h])" and hd: "isSectionHeader ((xs @ [h]) ! i)"
  show "countMessages (take i (xs @ [h])) < MAX_MESSAGES_TO_DISPLAY"
  proof (cases "i < length xs")
    case True
    with assms(1) hd show ?thesis
      by (simp add: headersBelowCap_def nth_append)
  next
    case False
    with i have "i = length xs" by simp
    with assms(2) show ?thesis by simp
  qed
qed

lemma headersBelowCap_plain:
  assumes "headersBelowCap xs" and "\<forall>c \<in> set ys. \<not> isSectionHeader c"
  shows "headersBelowCap (xs @ ys)"
  unfolding headersBelowCap_def
proof (intro allI impI)
  fix i
  assume i: "i < length (xs @ ys)" and hd: "isSectionHeader ((xs @ ys) ! i)"
  show "countMessages (take i (xs @ ys)) < MAX_MESSAGES_TO_DISPLAY"
  proof (cases "i < length xs")
    case True
    with assms(1) hd show ?thesis
      by (simp add: headersBelowCap_def nth_append)
  next
    case False
    with i have "(xs @ ys) ! i \<in> set ys"
      by (simp add: nth_append)
    with assms(2) hd show ?thesis by blast
  qed
qed

lemma length_sortNewestFirst [simp]: "length (sortNewestFirst p ms) = length ms"
  by (simp add: sortNewestFirst_def)

lemma channelLoop_total:
  "cnt \<le> MAX_MESSAGES_TO_DISPLAY \<Longrightarrow>
   snd (channelLoop p rs (resp, cnt)) =
     min MAX_MESSAGES_TO_DISPLAY (cnt + length (concat (map messages rs)))"
proof (induction rs arbitrary: resp cnt)
  case Nil
  then show ?case by simp
next
  case (Cons r rs)
  show ?case
  proof (cases "cnt \<ge> MAX_MESSAGES_TO_DISPLAY")
    case True
    with Cons.prems show ?thesis by simp
  next
    case False
    let ?n = "length (take (MAX_MESSAGES_TO_DISPLAY - cnt) (sortNewestFirst p (messages r)))"
    have n: "cnt + ?n = min MAX_MESSAGES_TO_DISPLAY (cnt + length (messages r))"
      using False by (auto simp: min_def)
    then have le: "cnt + ?n \<le> MAX_MESSAGES_TO_DISPLAY" by simp
    have "snd (channelLoop p (r # rs) (resp, cnt)) =
        min MAX_MESSAGES_TO_DISPLAY (cnt + ?n + length (concat (map messages rs)))"
      using False Cons.IH[OF le] by (simp add: Let_def)
    also have "\<dots> = min MAX_MESSAGES_TO_DISPLAY
        (cnt + length (concat (map messages (r # rs))))"
      unfolding n by (simp add: min_def)
    finally show ?thesis .
  qed
qed

lemma channelLoop_inv:
  "countMessages resp = cnt \<Longrightarrow> headersBelowCap resp \<Longrightarrow>
   countMessages (fst (channelLoop p rs (resp, cnt))) = snd (channelLoop p rs (resp, cnt))
   \<and> headersBelowCap (fst (channelLoop p rs (resp, cnt)))"
proof (induction rs arbitrary: resp cnt)
  case Nil
  then show ?case by simp
next
  case (Cons r rs)
  show ?case
  proof (cases "cnt \<ge> MAX_MESSAGES_TO_DISPLAY")
    case True
    with Cons.prems show ?thesis by simp
  next
    case False
    let ?show = "take (MAX_MESSAGES_TO_DISPLAY - cnt) (sortNewestFirst p (messages r))"
    let ?resp = "resp @ [ChannelHeader (info_name (channelInfo r))]
                @ map (MessageLine p) ?show @ [Separator]"
    have c: "countMessages ?resp = cnt + length ?show"
      using Cons.prems(1) by (simp add: isMessageLine_def)
    have "headersBelowCap (resp @ [ChannelHeader (info_name (channelInfo r))])"
      using Cons.prems False by (intro headersBelowCap_snoc) auto
    then have "headersBelowCap ((resp @ [ChannelHeader (info_name (channelInfo r))])
        @ (map (MessageLine p) ?show @ [Separator]))"
      by (rule headersBelowCap_plain) (auto simp: isSectionHeader_def)
    then have h: "headersBelowCap ?resp" by simp
    from Cons.IH[OF c h] False show ?thesis by (simp add: Let_def)
  qed
qed

lemma platformLoop_total:
  "cnt \<le> MAX_MESSAGES_TO_DISPLAY \<Longrightarrow>
   snd (platformLoop sr (resp, cnt)) =
     min MAX_MESSAGES_TO_DISPLAY (cnt + totalMessages sr)"
proof (induction sr arbitrary: resp cnt)
  case Nil
  then show ?case by (simp add: totalMessages_def)
next
  case (Cons a sr)
  obtain p rs where a: "a = (p, rs)" by (cases a)
  show ?case
  proof (cases "cnt \<ge> MAX_MESSAGES_TO_DISPLAY")
    case True
    with Cons.prems show ?thesis by (simp add: a)
  next
    case False
    let ?st = "channelLoop p rs (resp @ [PlatformHeader p], cnt)"
    have s: "snd ?st = min MAX_MESSAGES_TO_DISPLAY (cnt + length (concat (map messages rs)))"
      using Cons.prems by (rule channelLoop_total)
    then have le: "snd ?st \<le> MAX_MESSAGES_TO_DISPLAY" by simp
    have "snd (platformLoop (a # sr) (resp, cnt)) = snd (platformLoop sr (fst ?st, snd ?st))"
      using False by (simp add: a)
    also have "\<dots> = min MAX_MESSAGES_TO_DISPLAY (snd ?st + totalMessages sr)"
      using le by (rule Cons.IH)
    also have "\<dots> = min MAX_MESSAGES_TO_DISPLAY (cnt + totalMessages (a # sr))"
      unfolding s by (simp add: a totalMessages_def min_def)
    finally show ?thesis .
  qed
qed

lemma platformLoop_inv:
  "countMessages resp = cnt \<Longrightarrow> headersBelowCap resp \<Longrightarrow>
   countMessages (fst (platformLoop sr (resp, cnt))) = snd (platformLoop sr (resp, cnt))
   \<and> headersBelowCap (fst (platformLoop sr (resp, cnt)))"
proof (induction sr arbitrary: resp cnt)
  case Nil
  then show ?case by simp
next
  case (Cons a sr)
  obtain p rs where a: "a = (p, rs)" by (cases a)
  show ?case
  proof (cases "cnt \<ge> MAX_MESSAGES_TO_DISPLAY")
    case True
    with Cons.prems show ?thesis by (simp add: a)
  next
    case False
    let ?st = "channelLoop p rs (resp @ [PlatformHeader p], cnt)"
    have c: "countMessages (resp @ [PlatformHeader p]) = cnt"
      using Cons.prems(1) by (simp add: isMessageLine_def)
    have h: "headersBelowCap (resp @ [PlatformHeader p])"
      using Cons.prems False by (intro headersBelowCap_snoc) auto
    from channelLoop_inv[OF c h, of p rs]
    have c': "countMessages (fst ?st) = snd ?st" and h': "headersBelowCap (fst ?st)"
      by blast+
    from Cons.IH[OF c' h'] False show ?thesis by (simp add: a)
  qed
qed


lemma formatResults_loop:
  "formatResults query sr =
     (let st = platformLoop sr ([Title query], 0)
      in if totalMessages sr > snd st then fst st @ [Note (snd st) (totalMessages sr)]
         else fst st)"
  by (simp add: formatResults_def Let_def case_prod_beta)

text \<open>
  C2 (display cap). Whatever the search results, the response holds
  \<open>min M 20\<close> message lines, where \<open>M\<close> is the number of matching messages: at most
  20. Every platform or channel header in it stands behind fewer than 20 message lines, so
  no section is opened once the cap is reached. When \<open>M\<close> exceeds the number of lines
  shown, the response ends with the note that gives both numbers in decimal.
\<close>

theorem formatResults_display_cap:
  "countMessages (formatResults query sr) = min (totalMessages sr) 20
   \<and> countMessages (formatResults query sr) \<le> MAX_MESSAGES_TO_DISPLAY
   \<and> (\<forall>i < length (formatResults query sr).
         isSectionHeader (formatResults query sr ! i) \<longrightarrow>
         countMessages (take i (formatResults query sr)) < 20)
   \<and> (totalMessages sr > countMessages (formatResults query sr) \<longrightarrow>
         last (formatResults query sr)
           = Note (countMessages (formatResults query sr)) (totalMessages sr)
         \<and> renderResponse e (formatResults query sr) =
             renderResponse e (butlast (formatResults query sr))
             @ [CHR 0x0A] @ ''_Showing '' @ showNat (countMessages (formatResults query sr))
             @ '' of '' @ showNat (totalMessages sr)
             @ '' matching messages. Refine your search to see more specific results._'')"
proof -
  let ?st = "platformLoop sr ([Title query], 0)"
  let ?out = "formatResults query sr"
  let ?M = "totalMessages sr"
  have c0: "countMessages [Title query] = 0"
    by (simp add: isMessageLine_def)
  have h0: "headersBelowCap [Title query]"
    by (simp add: headersBelowCap_def isSectionHeader_def)
  from platformLoop_inv[OF c0 h0, of sr]
  have cnt: "countMessages (fst ?st) = snd ?st" and hb: "headersBelowCap (fst ?st)"
    by blast+
  have tot: "snd ?st = min MAX_MESSAGES_TO_DISPLAY ?M"
    using platformLoop_total[of 0 sr "[Title query]"] by simp
  have out: "?out = (if ?M > snd ?st then fst ?st @ [Note (snd ?st) ?M] else fst ?st)"
    by (simp add: formatResults_loop Let_def)
  have shown: "countMessages ?out = snd ?st"
    by (simp add: out cnt isMessageLine_def)
  have a: "countMessages ?out = min ?M 20"
    by (simp add: shown tot MAX_MESSAGES_TO_DISPLAY_def min.commute)
  then have b: "countMessages ?out \<le> MAX_MESSAGES_TO_DISPLAY"
    by (simp add: MAX_MESSAGES_TO_DISPLAY_def)
  have "headersBelowCap ?out"
  proof (cases "?M > snd ?st")
    case True
    have "headersBelowCap (fst ?st @ [Note (snd ?st) ?M])"
      using hb by (rule headersBelowCap_plain) (simp add: isSectionHeader_def)
    with True show ?thesis by (simp add: out)
  next
    case False
    with hb show ?thesis by (simp add: out)
  qed
  then have c: "\<forall>i < length ?out. isSectionHeader (?out ! i) \<longrightarrow>
         countMessages (take i ?out) < 20"
    by (simp add: headersBelowCap_def MAX_MESSAGES_TO_DISPLAY_def)
  have d: "last ?out = Note (countMessages ?out) ?M
         \<and> renderResponse e ?out =
             renderResponse e (butlast ?out)
             @ [CHR 0x0A] @ ''_Showing '' @ showNat (countMessages ?out)
             @ '' of '' @ showNat ?M
             @ '' matching messages. Refine your search to see more specific results._''"
    if "?M > countMessages ?out"
  proof -
    from that have gt: "?M > snd ?st" by (simp add: shown)
    then have o: "?out = fst ?st @ [Note (snd ?st) ?M]" by (simp add: out)
    have l: "last ?out = Note (countMessages ?out) ?M"
      unfolding shown by (simp add: o)
    have r: "renderResponse e ?out =
             renderResponse e (butlast ?out)
             @ [CHR 0x0A] @ ''_Showing '' @ showNat (countMessages ?out)
             @ '' of '' @ showNat ?M
             @ '' matching messages. Refine your search to see more specific results._''"
      unfolding shown by (simp add: o renderResponse_def renderChunk_def)
    from l r show ?thesis by blast
  qed
  from a b c d show ?thesis by blast
qed

theorem formatResults_display_cap_witness:
  "totalMessages thirtyMatches = 30
   \<and> countMessages (formatResults ''deploy'' thirtyMatches) = 20
   \<and> filter isSectionHeader (formatResults ''deploy'' thirtyMatches)
       = [PlatformHeader Discord, ChannelHeader ''alpha'', ChannelHeader ''beta'']
   \<and> last (formatResults ''deploy'' thirtyMatches) = Note 20 30
   \<and> showNat 20 = ''20'' \<and> showNat 30 = ''30''"
proof -
  note inst = formatResults_display_cap[of "''deploy''" thirtyMatches exampleEnv]
  have m: "totalMessages thirtyMatches = 30"
    by code_simp
  have s: "countMessages (formatResults ''deploy'' thirtyMatches) = 20"
    using inst m by simp
  have h: "filter isSectionHeader (formatResults ''deploy'' thirtyMatches)
       = [PlatformHeader Discord, ChannelHeader ''alpha'', ChannelHeader ''beta'']"
    by code_simp
  have l: "last (formatResults ''deploy'' thirtyMatches) = Note 20 30"
    using inst m s by simp
  have n: "showNat 20 = ''20''" "showNat 30 = ''30''"
    by code_simp+
  from m s h l n show ?thesis by blast
qed

end
